theory Spec2Isabelle
  imports Main "HOL-Library.Char_ord" "HOL-Library.List_Lexorder" "HOL-Library.Sublist"
    "HOL-Library.AList"
begin

section \<open>Text primitives\<close>

text \<open>
  Names are modelled as \<^typ>\<open>string\<close>, i.e. lists of 8-bit characters, and stand for
  ASCII file and folder names.  On ASCII text Python's \<^verbatim>\<open>str.upper\<close>,
  \<^verbatim>\<open>str.lower\<close>, \<^verbatim>\<open>re.IGNORECASE\<close>, \<^verbatim>\<open>\d\<close> and
  \<^verbatim>\<open>\s\<close> are the functions below; characters outside ASCII are left unchanged by
  the case maps and match no character class.  String comparison is the lexicographic
  order on character codes, as for Python's \<^verbatim>\<open>str\<close>.
\<close>

definition lower_letters :: string where
  "lower_letters = ''abcdefghijklmnopqrstuvwxyz''"

definition upper_letters :: string where
  "upper_letters = ''ABCDEFGHIJKLMNOPQRSTUVWXYZ''"

definition lower_char :: "char \<Rightarrow> char" where
  "lower_char c = (case map_of (zip upper_letters lower_letters) c of Some d \<Rightarrow> d | None \<Rightarrow> c)"

definition upper_char :: "char \<Rightarrow> char" where
  "upper_char c = (case map_of (zip lower_letters upper_letters) c of Some d \<Rightarrow> d | None \<Rightarrow> c)"

definition lower :: "string \<Rightarrow> string" where
  "lower s = map lower_char s"

definition upper :: "string \<Rightarrow> string" where
  "upper s = map upper_char s"

definition is_digit :: "char \<Rightarrow> bool" where
  "is_digit c = (c \<in> set ''0123456789'')"

text \<open>\<^verbatim>\<open>\s\<close> on ASCII: tab, line feed, vertical tab, form feed, carriage return,
  the four separators FS, GS, RS, US, and the space.\<close>

definition is_space :: "char \<Rightarrow> bool" where
  "is_space c = (c \<in> set [CHR 0x09, CHR 0x0A, CHR 0x0B, CHR 0x0C, CHR 0x0D,
                            CHR 0x1C, CHR 0x1D, CHR 0x1E, CHR 0x1F, CHR '' ''])"

text \<open>The character class \<^verbatim>\<open>[_.\-\s]\<close>.\<close>

definition is_sep :: "char \<Rightarrow> bool" where
  "is_sep c = (c = CHR ''_'' \<or> c = CHR ''.'' \<or> c = CHR ''-'' \<or> is_space c)"

definition digit_val :: "char \<Rightarrow> nat" where
  "digit_val c = (case map_of (zip ''0123456789'' [0, 1, 2, 3, 4, 5, 6, 7, 8, 9]) c of
                    Some d \<Rightarrow> d | None \<Rightarrow> 0)"

text \<open>\<^verbatim>\<open>int(ds)\<close> for a non-empty run of decimal digits.\<close>

definition int_of_digits :: "string \<Rightarrow> nat" where
  "int_of_digits ds = foldl (\<lambda>n c. 10 * n + digit_val c) 0 ds"

definition digit_char :: "nat \<Rightarrow> char" where
  "digit_char d = ''0123456789'' ! d"

text \<open>\<^verbatim>\<open>str(n)\<close> for a non-negative integer.\<close>

fun str_nat :: "nat \<Rightarrow> string" where
  "str_nat n = (if n < 10 then [digit_char n] else str_nat (n div 10) @ [digit_char (n mod 10)])"

declare str_nat.simps [simp del]

text \<open>The format \<^verbatim>\<open>{n:02d}\<close>: decimal, padded with a zero to two digits.\<close>

definition fmt02 :: "nat \<Rightarrow> string" where
  "fmt02 n = (if n < 10 then CHR ''0'' # str_nat n else str_nat n)"

text \<open>\<^verbatim>\<open>k in s\<close> for strings: \<open>k\<close> occurs in \<open>s\<close> as a contiguous substring.\<close>

definition contains :: "string \<Rightarrow> string \<Rightarrow> bool" where
  "contains s k = sublist k s"

section \<open>Regular expressions of the classifier\<close>

text \<open>
  \<^verbatim>\<open>re.search\<close> tries the pattern at every start position from the left (the empty
  suffix included) and returns the first match.  A pattern is modelled by its matcher at
  a fixed start position, which returns the captured groups.
\<close>

fun re_search :: "(string \<Rightarrow> 'a option) \<Rightarrow> string \<Rightarrow> 'a option" where
  "re_search m [] = m []"
| "re_search m (c # cs) = (case m (c # cs) of Some r \<Rightarrow> Some r | None \<Rightarrow> re_search m cs)"

text \<open>A literal keyword (given in lower case) under \<^verbatim>\<open>re.IGNORECASE\<close>: the rest of
  the text after the keyword, if the text starts with it.\<close>

definition lit_ci :: "string \<Rightarrow> string \<Rightarrow> string option" where
  "lit_ci kw s = (if lower (take (length kw) s) = kw \<and> length kw \<le> length s
                  then Some (drop (length kw) s) else None)"

text \<open>\<^verbatim>\<open>(\d+)\<close>, greedy: the captured digits and the rest; fails on an empty run.\<close>

definition digits1 :: "string \<Rightarrow> (string \<times> string) option" where
  "digits1 s = (if takeWhile is_digit s = [] then None
                else Some (takeWhile is_digit s, dropWhile is_digit s))"

text \<open>\<^verbatim>\<open>[_.\-\s]?(\d+)\<close>: the optional separator is tried first, then skipped.\<close>

definition sep_digits :: "string \<Rightarrow> string option" where
  "sep_digits s =
     (case (case s of [] \<Rightarrow> None | c # t \<Rightarrow> if is_sep c then digits1 t else None) of
        Some (ds, _) \<Rightarrow> Some ds
      | None \<Rightarrow> (case digits1 s of Some (ds, _) \<Rightarrow> Some ds | None \<Rightarrow> None))"

text \<open>\<^verbatim>\<open>(?:k1|k2|...)[_.\-\s]?(\d+)\<close> at a fixed position: the alternatives are tried
  in order, each followed by the rest of the pattern.\<close>

fun kw_sep_digits :: "string list \<Rightarrow> string \<Rightarrow> string option" where
  "kw_sep_digits [] s = None"
| "kw_sep_digits (kw # kws) s =
     (case (case lit_ci kw s of None \<Rightarrow> None | Some r \<Rightarrow> sep_digits r) of
        Some ds \<Rightarrow> Some ds
      | None \<Rightarrow> kw_sep_digits kws s)"

declare kw_sep_digits.simps [simp del]

text \<open>\<^verbatim>\<open>get_clean_season_num\<close>:
  \<^verbatim>\<open>re.search(r"(?:season|staffel|s)[_.\-\s]?(\d+)", folder_name, re.IGNORECASE)\<close>.\<close>

definition get_clean_season_num :: "string \<Rightarrow> nat option" where
  "get_clean_season_num folder_name =
     (case re_search (kw_sep_digits [''season'', ''staffel'', ''s'']) folder_name of
        Some ds \<Rightarrow> Some (int_of_digits ds)
      | None \<Rightarrow> None)"

text \<open>\<^verbatim>\<open>re.sub(f"s{season_num}", "", folder_name, flags=re.IGNORECASE)\<close>: every
  non-overlapping occurrence of the letter s followed by the digits \<open>d\<close>, scanned from the
  left, is deleted.\<close>

fun sub_season :: "string \<Rightarrow> string \<Rightarrow> string" where
  "sub_season d [] = []"
| "sub_season d (c # cs) =
     (if lit_ci (CHR ''s'' # d) (c # cs) \<noteq> None then sub_season d (drop (length d) cs)
      else c # sub_season d cs)"

text \<open>\<^verbatim>\<open>s(\d+)d(\d+)\<close> under \<^verbatim>\<open>re.IGNORECASE\<close>, at a fixed position.\<close>

definition season_disc_at :: "string \<Rightarrow> (string \<times> string) option" where
  "season_disc_at s =
     (case lit_ci ''s'' s of None \<Rightarrow> None
      | Some r \<Rightarrow> (case digits1 r of None \<Rightarrow> None
          | Some (g1, r1) \<Rightarrow> (case lit_ci ''d'' r1 of None \<Rightarrow> None
              | Some r2 \<Rightarrow> (case digits1 r2 of None \<Rightarrow> None
                  | Some (g2, _) \<Rightarrow> Some (g1, g2)))))"

definition get_clean_disc_num :: "string \<Rightarrow> nat \<Rightarrow> nat option" where
  "get_clean_disc_num folder_name season_num =
     (let temp_name = sub_season (str_nat season_num) folder_name in
      case re_search (kw_sep_digits [''disc'', ''disk'', ''dvd'', ''d'']) temp_name of
        Some ds \<Rightarrow> Some (int_of_digits ds)
      | None \<Rightarrow>
         (case re_search season_disc_at folder_name of
            Some (g1, g2) \<Rightarrow>
              if int_of_digits g1 = season_num then Some (int_of_digits g2)
              else Some (int_of_digits g1)
          | None \<Rightarrow> None))"

text \<open>\<^verbatim>\<open>[sS]\d+[eE](\d+)\<close> at a fixed position.\<close>

definition episode_at :: "string \<Rightarrow> string option" where
  "episode_at s =
     (case lit_ci ''s'' s of None \<Rightarrow> None
      | Some r \<Rightarrow> (case digits1 r of None \<Rightarrow> None
          | Some (_, r1) \<Rightarrow> (case lit_ci ''e'' r1 of None \<Rightarrow> None
              | Some r2 \<Rightarrow> (case digits1 r2 of None \<Rightarrow> None
                  | Some (g, _) \<Rightarrow> Some g))))"

definition get_episode_from_file :: "string \<Rightarrow> nat option" where
  "get_episode_from_file filename =
     (case re_search episode_at filename of Some g \<Rightarrow> Some (int_of_digits g) | None \<Rightarrow> None)"

section \<open>Configuration and ignore rules\<close>

definition VIDEO_EXTENSIONS :: "string list" where
  "VIDEO_EXTENSIONS = [''.mkv'', ''.mp4'', ''.avi'', ''.m4v'', ''.iso'', ''.wmv'']"

definition FOLDER_IGNORE_KEYWORDS :: "string list" where
  "FOLDER_IGNORE_KEYWORDS =
     [''RAZOR'', ''THE PLAN'', ''CONQUEST'', ''EXTRAS'', ''SPECIALS'', ''FEATURETTES'', ''SAMPLE'']"

definition FILE_IGNORE_KEYWORDS :: "string list" where
  "FILE_IGNORE_KEYWORDS = [''[IGNORE]'', ''SAMPLE'', ''TRAILER'']"

definition should_ignore_file :: "string \<Rightarrow> bool" where
  "should_ignore_file filename =
     list_ex (\<lambda>k. contains (upper filename) (upper k)) FILE_IGNORE_KEYWORDS"

text \<open>The test of \<^verbatim>\<open>process_show\<close> on a folder name:
  \<^verbatim>\<open>any(k in folder.name.upper() for k in FOLDER_IGNORE_KEYWORDS)\<close>.\<close>

definition folder_ignored :: "string \<Rightarrow> bool" where
  "folder_ignored folder_name = list_ex (\<lambda>k. contains (upper folder_name) k) FOLDER_IGNORE_KEYWORDS"

section \<open>Directory trees and paths\<close>

text \<open>
  A directory tree as the traversal sees it: a regular file, a directory with its
  listing (in the arbitrary order of \<^verbatim>\<open>iterdir\<close>), or an entry that is neither
  (\<^verbatim>\<open>is_dir()\<close> and \<^verbatim>\<open>is_file()\<close> both false).
\<close>

datatype node = File string | Dir string "node list" | Other string

fun node_name :: "node \<Rightarrow> string" where
  "node_name (File n) = n"
| "node_name (Dir n cs) = n"
| "node_name (Other n) = n"

fun is_dir :: "node \<Rightarrow> bool" where
  "is_dir (Dir n cs) = True"
| "is_dir _ = False"

fun is_file :: "node \<Rightarrow> bool" where
  "is_file (File n) = True"
| "is_file _ = False"

fun iterdir :: "node \<Rightarrow> node list" where
  "iterdir (Dir n cs) = cs"
| "iterdir _ = []"

text \<open>
  A path is the list of its \<^verbatim>\<open>parts\<close>, the anchor (\<^verbatim>\<open>/\<close> or a drive) first.
  Entries of one directory are sorted by name: paths with the same parent compare by their
  last part.
\<close>

type_synonym path = "string list"

definition path_name :: "path \<Rightarrow> string" where
  "path_name p = (if p = [] then [] else last p)"

definition path_parent :: "path \<Rightarrow> path" where
  "path_parent p = butlast p"

fun rfind :: "char \<Rightarrow> string \<Rightarrow> nat option" where
  "rfind c [] = None"
| "rfind c (x # xs) =
     (case rfind c xs of Some i \<Rightarrow> Some (Suc i) | None \<Rightarrow> if x = c then Some 0 else None)"

text \<open>\<^verbatim>\<open>PurePath.suffix\<close>: from the last dot of the name, unless that dot is the
  first or the last character.\<close>

definition path_suffix :: "string \<Rightarrow> string" where
  "path_suffix name =
     (case rfind CHR ''.'' name of
        None \<Rightarrow> []
      | Some i \<Rightarrow> if 0 < i \<and> i < length name - 1 then drop i name else [])"

definition is_video :: "string \<Rightarrow> bool" where
  "is_video name = (lower (path_suffix name) \<in> set VIDEO_EXTENSIONS)"

fun join :: "string \<Rightarrow> string list \<Rightarrow> string" where
  "join sep [] = []"
| "join sep [x] = x"
| "join sep (x # y # ys) = x @ sep @ join sep (y # ys)"

text \<open>\<^verbatim>\<open>str(path)\<close> of an absolute path: the anchor, then the other parts joined by
  the separator of the platform.\<close>

definition path_str :: "bool \<Rightarrow> path \<Rightarrow> string" where
  "path_str is_windows p =
     (case p of [] \<Rightarrow> ''.''
      | a # ps \<Rightarrow> a @ join (if is_windows then [CHR 0x5C] else ''/'') ps)"

section \<open>The planner\<close>

record operation =
  original :: path
  new_name :: string
  season_num :: nat
  is_root_move :: bool

text \<open>A line of the tree report: the show header, an entry with an arrow to its new name,
  or a plain entry; the number is the indentation level.\<close>

datatype log_line = LogShow string | LogArrow nat string string | LogLeaf nat string

record processor =
  operations :: "operation list"
  tree_output :: "log_line list"

definition init_processor :: processor where
  "init_processor = \<lparr>operations = [], tree_output = []\<rparr>"

definition log_tree :: "log_line list \<Rightarrow> nat \<Rightarrow> string \<Rightarrow> string option \<Rightarrow> log_line list" where
  "log_tree log_list level text' operation =
     log_list @ [case operation of
                   Some t \<Rightarrow> if t \<noteq> [] then LogArrow level text' t else LogLeaf level text'
                 | None \<Rightarrow> LogLeaf level text']"

text \<open>Lines 139 to 146 of \<^verbatim>\<open>plan_file_rename\<close>: the new counter and the episode
  number given to the file.  The test \<^verbatim>\<open>if explicit_ep:\<close> is false for
  \<^verbatim>\<open>None\<close> and for \<^verbatim>\<open>0\<close>.\<close>

definition assign_episode :: "string \<Rightarrow> nat \<Rightarrow> nat \<times> nat" where
  "assign_episode filename current_counter =
     (case get_episode_from_file filename of
        Some explicit_ep \<Rightarrow>
          if explicit_ep \<noteq> 0 then (max current_counter explicit_ep, explicit_ep)
          else (current_counter + 1, current_counter + 1)
      | None \<Rightarrow> (current_counter + 1, current_counter + 1))"

definition canonical_name :: "nat \<Rightarrow> nat \<Rightarrow> string \<Rightarrow> string" where
  "canonical_name season ep ext = ''S'' @ fmt02 season @ ''E'' @ fmt02 ep @ ext"

definition plan_file_rename ::
  "processor \<Rightarrow> path \<Rightarrow> nat \<Rightarrow> nat \<Rightarrow> nat \<Rightarrow> log_line list \<Rightarrow> bool
     \<Rightarrow> nat \<times> log_line list \<times> processor" where
  "plan_file_rename self file_path season current_counter indent logs root_move =
     (let (counter', final_ep_num) = assign_episode (path_name file_path) current_counter;
          name' = canonical_name season final_ep_num (path_suffix (path_name file_path));
          needs_rename = (path_name file_path \<noteq> name');
          op = (if needs_rename \<or> root_move then Some name' else None)
      in case op of
           Some t \<Rightarrow>
             if t \<noteq> [] then
               (counter', log_tree logs indent (path_name file_path) op,
                self\<lparr>operations := operations self @
                  [\<lparr>original = file_path, new_name = name', season_num = season,
                    is_root_move = root_move\<rparr>]\<rparr>)
             else (counter', logs, self)
         | None \<Rightarrow> (counter', logs, self))"

text \<open>The loops over the files of one folder (lines 117 to 119 and 134 to 136).\<close>

fun plan_files ::
  "processor \<Rightarrow> log_line list \<Rightarrow> path \<Rightarrow> node list \<Rightarrow> nat \<Rightarrow> nat \<Rightarrow> nat \<Rightarrow> bool
     \<Rightarrow> nat \<times> log_line list \<times> processor" where
  "plan_files self logs folder [] season counter indent root_move = (counter, logs, self)"
| "plan_files self logs folder (f # fs) season counter indent root_move =
     (if should_ignore_file (node_name f)
      then plan_files self logs folder fs season counter indent root_move
      else (case plan_file_rename self (folder @ [node_name f]) season counter indent logs root_move of
              (counter', logs', self') \<Rightarrow>
                plan_files self' logs' folder fs season counter' indent root_move))"

text \<open>The scan of a season folder (lines 108 to 114).  A dictionary is an association
  list updated in place; \<^verbatim>\<open>if d_num:\<close> is false for \<^verbatim>\<open>None\<close> and for
  \<^verbatim>\<open>0\<close>.\<close>

fun scan_season ::
  "nat \<Rightarrow> node list \<Rightarrow> (nat \<times> node) list \<times> node list \<Rightarrow> (nat \<times> node) list \<times> node list" where
  "scan_season season [] acc = acc"
| "scan_season season (item # items) (discs_map, direct_files) =
     (if is_dir item then
        (case get_clean_disc_num (node_name item) season of
           Some d_num \<Rightarrow>
             if d_num \<noteq> 0
             then scan_season season items (AList.update d_num item discs_map, direct_files)
             else scan_season season items (discs_map, direct_files)
         | None \<Rightarrow> scan_season season items (discs_map, direct_files))
      else if is_file item \<and> is_video (node_name item)
      then scan_season season items (discs_map, direct_files @ [item])
      else scan_season season items (discs_map, direct_files))"

definition video_files :: "node list \<Rightarrow> node list" where
  "video_files items = filter (\<lambda>x. is_file x \<and> is_video (node_name x)) items"

text \<open>The loop over the discs (lines 122 to 136); the pairs come in ascending order of
  the disc number.\<close>

fun process_discs ::
  "processor \<Rightarrow> log_line list \<Rightarrow> path \<Rightarrow> (nat \<times> node) list \<Rightarrow> nat \<Rightarrow> nat
     \<Rightarrow> nat \<times> log_line list \<times> processor" where
  "process_discs self logs current_path [] season counter = (counter, logs, self)"
| "process_discs self logs current_path ((d_num, disc_folder) # ds) season counter =
     (let target_disc_name = ''S'' @ str_nat season @ ''D'' @ str_nat d_num;
          rename_op = (if node_name disc_folder \<noteq> target_disc_name
                       then Some target_disc_name else None);
          logs1 = log_tree logs 2 (node_name disc_folder) rename_op;
          disc_files = sort_key node_name (video_files (iterdir disc_folder))
      in case plan_files self logs1 (current_path @ [node_name disc_folder]) disc_files
                season counter 3 False of
           (counter', logs', self') \<Rightarrow>
             process_discs self' logs' current_path ds season counter')"

definition process_season_content ::
  "processor \<Rightarrow> path \<Rightarrow> node list \<Rightarrow> node list \<Rightarrow> nat \<Rightarrow> string \<Rightarrow> bool \<Rightarrow> log_line list
     \<Rightarrow> log_line list \<times> processor" where
  "process_season_content self current_path listing root_files_list season target_season_name
       is_root logs =
     (let (discs_map, direct_files) =
            (if is_root then ([], sort_key node_name root_files_list)
             else scan_season season (sort_key node_name listing) ([], []))
      in case plan_files self logs current_path direct_files season 0 2 is_root of
           (counter, logs1, self1) \<Rightarrow>
             (case process_discs self1 logs1 current_path (sort_key fst discs_map) season counter of
                (counter', logs2, self2) \<Rightarrow> (logs2, self2)))"

text \<open>The value of a season in the season map: a folder, or the marker
  \<^verbatim>\<open>"CREATE_ROOT_S1"\<close>.\<close>

datatype season_src = Folder node | CREATE_ROOT_S1

text \<open>Step 1 of \<^verbatim>\<open>process_show\<close> (lines 72 to 77).\<close>

fun map_seasons :: "node list \<Rightarrow> (nat \<times> season_src) list \<Rightarrow> (nat \<times> season_src) list" where
  "map_seasons [] seasons_map = seasons_map"
| "map_seasons (folder # folders) seasons_map =
     (if folder_ignored (node_name folder) then map_seasons folders seasons_map
      else (case get_clean_season_num (node_name folder) of
              Some s_num \<Rightarrow> map_seasons folders (AList.update s_num (Folder folder) seasons_map)
            | None \<Rightarrow> map_seasons folders seasons_map))"

text \<open>Step 3 of \<^verbatim>\<open>process_show\<close> (lines 85 to 94).\<close>

fun process_seasons ::
  "processor \<Rightarrow> log_line list \<Rightarrow> path \<Rightarrow> node list \<Rightarrow> (nat \<times> season_src) list
     \<Rightarrow> log_line list \<times> processor" where
  "process_seasons self show_logs show_path root_files [] = (show_logs, self)"
| "process_seasons self show_logs show_path root_files ((s_num, folder) # rest) =
     (let target_season_name = ''Season '' @ str_nat s_num in
      case (case folder of
              CREATE_ROOT_S1 \<Rightarrow>
                process_season_content self show_path [] root_files s_num target_season_name
                  True show_logs
            | Folder d \<Rightarrow>
                (let rename_op = (if node_name d \<noteq> target_season_name
                                  then Some target_season_name else None);
                     logs1 = log_tree show_logs 1 (node_name d) rename_op
                 in process_season_content self (show_path @ [node_name d]) (iterdir d) []
                      s_num target_season_name False logs1)) of
        (logs', self') \<Rightarrow> process_seasons self' logs' show_path root_files rest)"

definition process_show :: "processor \<Rightarrow> path \<Rightarrow> node list \<Rightarrow> processor" where
  "process_show self show_path listing =
     (let show_logs = [LogShow (path_name show_path)];
          initial_ops_count = length (operations self);
          items = sort_key node_name listing;
          folders = filter is_dir items;
          root_files = video_files items;
          seasons_map = map_seasons folders [];
          seasons_map' =
            (if root_files \<noteq> [] \<and> \<not> list_ex (\<lambda>f. should_ignore_file (node_name f)) root_files
             then (if 1 \<notin> fst ` set seasons_map
                   then AList.update 1 CREATE_ROOT_S1 seasons_map else seasons_map)
             else seasons_map)
      in case process_seasons self show_logs show_path root_files (sort_key fst seasons_map') of
           (logs', self') \<Rightarrow>
             if length (operations self') > initial_ops_count
             then self'\<lparr>tree_output := tree_output self' @ logs'\<rparr>
             else self')"

section \<open>The apply script\<close>

definition quoted :: "string \<Rightarrow> string" where
  "quoted s = [CHR 0x22] @ s @ [CHR 0x22]"

text \<open>The lines written for one operation (the body of the loop of
  \<^verbatim>\<open>generate_script\<close>), without the final line feed.\<close>

definition script_lines :: "bool \<Rightarrow> operation \<Rightarrow> string list" where
  "script_lines is_windows op =
     (let orig = path_str is_windows (original op);
          parent = path_parent (original op)
      in if is_root_move op then
           (let dest_folder = parent @ [''Season '' @ str_nat (season_num op)];
                dest_file = dest_folder @ [new_name op]
            in if is_windows then
                 [''mkdir '' @ quoted (path_str is_windows dest_folder) @ '' 2>nul'',
                  ''move '' @ quoted orig @ '' '' @ quoted (path_str is_windows dest_file)]
               else
                 [''mkdir -p '' @ quoted (path_str is_windows dest_folder),
                  ''mv -n '' @ quoted orig @ '' '' @ quoted (path_str is_windows dest_file)])
         else
           (let dest_file = parent @ [new_name op]
            in if is_windows then
                 [''move '' @ quoted orig @ '' '' @ quoted (path_str is_windows dest_file)]
               else
                 [''mv -n '' @ quoted orig @ '' '' @ quoted (path_str is_windows dest_file)]))"

text \<open>\<^verbatim>\<open>generate_script\<close>: the name of the file written and its lines, or nothing
  when there is no operation.  The flag stands for \<^verbatim>\<open>os.name == 'nt'\<close>.\<close>

definition generate_script :: "processor \<Rightarrow> bool \<Rightarrow> (string \<times> string list) option" where
  "generate_script self is_windows =
     (if operations self = [] then None
      else Some (if is_windows then ''apply_renames.bat'' else ''apply_renames.sh'',
                 (if is_windows then [''REM Generated by Jellyfin Organizer'']
                  else [''#!/bin/bash'', ''# Generated by Jellyfin Organizer'']) @
                 concat (map (script_lines is_windows) (operations self))))"

text \<open>The destination of an operation, as \<^verbatim>\<open>generate_script\<close> computes it.\<close>

definition destination :: "operation \<Rightarrow> path" where
  "destination op =
     (if is_root_move op
      then path_parent (original op) @ [''Season '' @ str_nat (season_num op)] @ [new_name op]
      else path_parent (original op) @ [new_name op])"

section \<open>A run\<close>

fun process_shows :: "processor \<Rightarrow> path \<Rightarrow> node list \<Rightarrow> processor" where
  "process_shows self target_path [] = self"
| "process_shows self target_path (show # shows) =
     process_shows (process_show self (target_path @ [node_name show]) (iterdir show))
       target_path shows"

datatype run_result =
    PathNotFound
  | NotADirectory
  | Completed processor "(string \<times> string list) option"

text \<open>The heuristic of \<^verbatim>\<open>detect_mode_and_run\<close> (lines 214 to 218): the target is a
  single show when one of its folders has a season word in its name or one of its files is
  a video.\<close>

definition single_show :: "node list \<Rightarrow> bool" where
  "single_show children =
     (let has_season_folders =
            list_ex (\<lambda>x. contains (lower (node_name x)) ''season'' \<or>
                          contains (lower (node_name x)) ''staffel'')
              (filter is_dir children);
          has_video_files = list_ex (\<lambda>x. is_video (node_name x)) (filter is_file children)
      in has_season_folders \<or> has_video_files)"

text \<open>\<^verbatim>\<open>detect_mode_and_run\<close> on the resolved target path; the target is absent, or
  the entry found there.  Listing a target that is not a directory raises.\<close>

definition detect_mode_and_run :: "bool \<Rightarrow> path \<Rightarrow> node option \<Rightarrow> run_result" where
  "detect_mode_and_run is_windows target_path target =
     (case target of
        None \<Rightarrow> PathNotFound
      | Some t \<Rightarrow>
          if \<not> is_dir t then NotADirectory
          else
            (let children = iterdir t;
                 processor =
                   (if single_show children
                    then process_show init_processor target_path children
                    else process_shows init_processor target_path
                           (sort_key node_name (filter is_dir children)))
             in Completed processor
                  (if tree_output processor \<noteq> [] then generate_script processor is_windows
                   else None)))"

section \<open>The numbering of a scope, seen from outside\<close>

text \<open>
  The planner keeps the episode number of a file only inside the new name of an operation,
  and records no operation for a file that already has its new name.  The functions of this
  section list what the loops of \<^const>\<open>plan_files\<close> and \<^const>\<open>process_discs\<close> compute on the
  way: the files visited, each with the folder it lies in, and the number
  \<^const>\<open>assign_episode\<close> gives to each.  They are linked to the planner by the lemmas
  \<open>plan_files_trace\<close>, \<open>process_discs_trace\<close> and \<open>process_season_content_trace\<close> below.
\<close>

text \<open>The test \<^verbatim>\<open>if explicit_ep:\<close> on the name of a file.\<close>

definition explicit_episode :: "string \<Rightarrow> bool" where
  "explicit_episode filename =
     (case get_episode_from_file filename of Some e \<Rightarrow> e \<noteq> 0 | None \<Rightarrow> False)"

text \<open>The files of a scope that are not ignored, in order, each with its number.\<close>

fun assignments :: "(path \<times> string) list \<Rightarrow> nat \<Rightarrow> ((path \<times> string) \<times> nat) list" where
  "assignments [] counter = []"
| "assignments ((folder, n) # rest) counter =
     (if should_ignore_file n then assignments rest counter
      else (case assign_episode n counter of
              (counter', e) \<Rightarrow> ((folder, n), e) # assignments rest counter'))"

fun final_counter :: "(path \<times> string) list \<Rightarrow> nat \<Rightarrow> nat" where
  "final_counter [] counter = counter"
| "final_counter ((folder, n) # rest) counter =
     (if should_ignore_file n then final_counter rest counter
      else final_counter rest (fst (assign_episode n counter)))"

text \<open>The operation recorded for a numbered file, if any (lines 148 to 161).\<close>

definition op_of :: "nat \<Rightarrow> bool \<Rightarrow> (path \<times> string) \<times> nat \<Rightarrow> operation list" where
  "op_of season root_move a =
     (case a of ((folder, n), e) \<Rightarrow>
        (let name' = canonical_name season e (path_suffix n)
         in if n \<noteq> name' \<or> root_move
            then [\<lparr>original = folder @ [n], new_name = name', season_num = season,
                    is_root_move = root_move\<rparr>]
            else []))"

definition scope_ops :: "nat \<Rightarrow> bool \<Rightarrow> (path \<times> string) list \<Rightarrow> nat \<Rightarrow> operation list" where
  "scope_ops season root_move scope counter =
     concat (map (op_of season root_move) (assignments scope counter))"

definition folder_scope :: "path \<Rightarrow> node list \<Rightarrow> (path \<times> string) list" where
  "folder_scope folder files = map (\<lambda>f. (folder, node_name f)) files"

text \<open>The files of the disc folders, disc after disc.\<close>

definition disc_scope :: "path \<Rightarrow> (nat \<times> node) list \<Rightarrow> (path \<times> string) list" where
  "disc_scope current_path discs =
     concat (map (\<lambda>(d_num, disc_folder).
                    folder_scope (current_path @ [node_name disc_folder])
                      (sort_key node_name (video_files (iterdir disc_folder))))
               discs)"

text \<open>The files of a season: the direct files, then the discs by ascending number.\<close>

definition season_scope ::
  "nat \<Rightarrow> path \<Rightarrow> node list \<Rightarrow> node list \<Rightarrow> bool \<Rightarrow> (path \<times> string) list" where
  "season_scope season current_path listing root_files_list is_root =
     (case (if is_root then ([], sort_key node_name root_files_list)
            else scan_season season (sort_key node_name listing) ([], [])) of
        (discs_map, direct_files) \<Rightarrow>
          folder_scope current_path direct_files @ disc_scope current_path (sort_key fst discs_map))"







section \<open>The effect of the apply script\<close>

text \<open>
  The script is run later, by the user; what it does to the tree is the meaning of its
  commands.  The lines written for an operation are one or two commands: the creation of
  the season folder for a file moved from the root of the show, and the move.
\<close>

datatype command = Mkdir path | Move path path

definition commands_of :: "operation \<Rightarrow> command list" where
  "commands_of op =
     (if is_root_move op
      then [Mkdir (path_parent (original op) @ [''Season '' @ str_nat (season_num op)]),
            Move (original op) (destination op)]
      else [Move (original op) (destination op)])"

definition render :: "bool \<Rightarrow> command \<Rightarrow> string" where
  "render is_windows c =
     (case c of
        Mkdir d \<Rightarrow>
          if is_windows then ''mkdir '' @ quoted (path_str is_windows d) @ '' 2>nul''
          else ''mkdir -p '' @ quoted (path_str is_windows d)
      | Move a b \<Rightarrow>
          (if is_windows then ''move '' else ''mv -n '') @
          quoted (path_str is_windows a) @ '' '' @ quoted (path_str is_windows b))"











section \<open>Trees that need no change\<close>



section \<open>The tree that the script leaves\<close>



text \<open>
  What the script adds to the folder \<^verbatim>\<open>q\<close>: a file for each operation that renames
  a file of \<^verbatim>\<open>q\<close> in place, and the season folder made for the files moved from
  \<^verbatim>\<open>q\<close> as the root of a show, with these files.
\<close>

definition moved_files :: "operation list \<Rightarrow> path \<Rightarrow> node list" where
  "moved_files ops q =
     map (\<lambda>op. File (new_name op))
       (filter (\<lambda>op. \<not> is_root_move op \<and> path_parent (original op) = q) ops)"

definition season_dirs :: "operation list \<Rightarrow> path \<Rightarrow> node list" where
  "season_dirs ops q =
     (case filter (\<lambda>op. is_root_move op \<and> path_parent (original op) = q) ops of
        [] \<Rightarrow> []
      | r # rs \<Rightarrow> [Dir (''Season '' @ str_nat (season_num r))
                      (map (\<lambda>op. File (new_name op)) (r # rs))])"

definition added :: "operation list \<Rightarrow> path \<Rightarrow> node list" where
  "added ops q = moved_files ops q @ season_dirs ops q"

text \<open>
  The listing of the folder \<^verbatim>\<open>q\<close> after the script, when every move takes effect:
  the sources of the operations are gone, the folders are changed in the same way, and the
  new entries come last.
\<close>

fun keep :: "operation list \<Rightarrow> path \<Rightarrow> node list \<Rightarrow> node list"
  and renode :: "operation list \<Rightarrow> path \<Rightarrow> node \<Rightarrow> node" where
  "keep ops q [] = []"
| "keep ops q (x # xs) =
     (if q @ [node_name x] \<in> set (map original ops) then keep ops q xs
      else renode ops q x # keep ops q xs)"
| "renode ops q (Dir m ks) = Dir m (keep ops (q @ [m]) ks @ added ops (q @ [m]))"
| "renode ops q (File n) = File n"
| "renode ops q (Other n) = Other n"









text \<open>
  The season that step 1 of \<^verbatim>\<open>process_show\<close> reads from a folder, and the disc
  number that \<^verbatim>\<open>process_season_content\<close> reads from an entry of a season folder.
\<close>

definition season_of :: "node \<Rightarrow> nat option" where
  "season_of d = (if folder_ignored (node_name d) then None else get_clean_season_num (node_name d))"

definition disc_of :: "nat \<Rightarrow> node \<Rightarrow> nat option" where
  "disc_of s d =
     (if is_dir d then
        (case get_clean_disc_num (node_name d) s of Some k \<Rightarrow> if k \<noteq> 0 then Some k else None
         | None \<Rightarrow> None)
      else None)"






section \<open>Facts about the text primitives and the classifier\<close>









lemma lit_ci_Nil [simp]: "lit_ci [] s = Some s"
  by (simp add: lit_ci_def lower_def)

lemma lit_ci_Cons_Nil [simp]: "lit_ci (k # kw) [] = None"
  by (simp add: lit_ci_def)

lemma lit_ci_Cons [simp]:
  "lit_ci (k # kw) (x # xs) = (if lower_char x = k then lit_ci kw xs else None)"
  by (simp add: lit_ci_def lower_def)










section \<open>The planner computes the numbering of the scope\<close>

lemma assign_episode_explicit:
  "assign_episode n c =
     (if explicit_episode n then (max c (the (get_episode_from_file n)), the (get_episode_from_file n))
      else (c + 1, c + 1))"
  by (simp add: assign_episode_def explicit_episode_def split: option.splits)

lemma assignments_append:
  "assignments (xs @ ys) c = assignments xs c @ assignments ys (final_counter xs c)"
  by (induction xs c rule: assignments.induct) (auto split: prod.splits)

lemma final_counter_append:
  "final_counter (xs @ ys) c = final_counter ys (final_counter xs c)"
  by (induction xs c rule: final_counter.induct) auto

lemma scope_ops_append:
  "scope_ops s r (xs @ ys) c = scope_ops s r xs c @ scope_ops s r ys (final_counter xs c)"
  by (simp add: scope_ops_def assignments_append)

lemma scope_ops_Nil [simp]: "scope_ops s r [] c = []"
  by (simp add: scope_ops_def)

lemma plan_file_rename_trace:
  "plan_file_rename self (folder @ [n]) s c indent logs root = (c', logs', self') \<Longrightarrow>
   c' = fst (assign_episode n c) \<and>
   operations self' = operations self @
     op_of s root ((folder, n), snd (assign_episode n c)) \<and>
   tree_output self' = tree_output self"
  by (auto simp: plan_file_rename_def op_of_def path_name_def Let_def canonical_name_def
      split: prod.splits if_splits)

lemma plan_files_trace:
  "plan_files self logs folder fs s c indent root = (c', logs', self') \<Longrightarrow>
   c' = final_counter (folder_scope folder fs) c \<and>
   operations self' = operations self @ scope_ops s root (folder_scope folder fs) c \<and>
   tree_output self' = tree_output self"
proof (induction fs arbitrary: self logs c)
  case Nil
  then show ?case by (simp add: folder_scope_def)
next
  case (Cons f fs)
  show ?case
  proof (cases "should_ignore_file (node_name f)")
    case True
    then show ?thesis using Cons by (simp add: folder_scope_def scope_ops_def)
  next
    case False
    obtain c1 logs1 self1 where
      step: "plan_file_rename self (folder @ [node_name f]) s c indent logs root = (c1, logs1, self1)"
      by (cases "plan_file_rename self (folder @ [node_name f]) s c indent logs root") auto
    from Cons.prems False step have
      rest: "plan_files self1 logs1 folder fs s c1 indent root = (c', logs', self')"
      by simp
    note t = plan_file_rename_trace[OF step] Cons.IH[OF rest]
    obtain cc e where ae: "assign_episode (node_name f) c = (cc, e)"
      by (cases "assign_episode (node_name f) c")
    show ?thesis using t False ae
      by (auto simp: folder_scope_def scope_ops_def)
  qed
qed

lemma process_discs_trace:
  "process_discs self logs p ds s c = (c', logs', self') \<Longrightarrow>
   c' = final_counter (disc_scope p ds) c \<and>
   operations self' = operations self @ scope_ops s False (disc_scope p ds) c \<and>
   tree_output self' = tree_output self"
proof (induction ds arbitrary: self logs c)
  case Nil
  then show ?case by (simp add: disc_scope_def)
next
  case (Cons d ds)
  obtain d_num disc_folder where d: "d = (d_num, disc_folder)" by (cases d)
  let ?files = "sort_key node_name (video_files (iterdir disc_folder))"
  from Cons.prems obtain logs0 c1 logs1 self1 where
    step: "plan_files self logs0 (p @ [node_name disc_folder]) ?files s c 3 False = (c1, logs1, self1)"
    and rest: "process_discs self1 logs1 p ds s c1 = (c', logs', self')"
    by (auto simp: d Let_def split: prod.splits)
  note t = plan_files_trace[OF step] Cons.IH[OF rest]
  have ds: "disc_scope p (d # ds) = folder_scope (p @ [node_name disc_folder]) ?files @ disc_scope p ds"
    by (simp add: disc_scope_def d)
  show ?case using t by (simp add: ds scope_ops_append final_counter_append)
qed

lemma process_season_content_trace:
  "process_season_content self p listing rf s tn is_root logs = (logs', self') \<Longrightarrow>
   operations self' = operations self @ scope_ops s is_root (season_scope s p listing rf is_root) 0 \<and>
   tree_output self' = tree_output self"
proof -
  assume a: "process_season_content self p listing rf s tn is_root logs = (logs', self')"
  obtain discs_map direct_files where
    sc: "(if is_root then ([], sort_key node_name rf)
          else scan_season s (sort_key node_name listing) ([], [])) = (discs_map, direct_files)"
    by (cases "if is_root then ([], sort_key node_name rf)
          else scan_season s (sort_key node_name listing) ([], [])") auto
  obtain c1 logs1 self1 where
    s1: "plan_files self logs p direct_files s 0 2 is_root = (c1, logs1, self1)"
    by (cases "plan_files self logs p direct_files s 0 2 is_root") auto
  obtain c2 logs2 self2 where
    s2: "process_discs self1 logs1 p (sort_key fst discs_map) s c1 = (c2, logs2, self2)"
    by (cases "process_discs self1 logs1 p (sort_key fst discs_map) s c1") auto
  have res: "self' = self2"
    using a sc s1 s2 unfolding process_season_content_def by simp
  have root_discs: "is_root \<Longrightarrow> discs_map = []"
    using sc by simp
  have sco: "scope_ops s is_root (season_scope s p listing rf is_root) 0 =
    scope_ops s is_root (folder_scope p direct_files) 0 @
    scope_ops s is_root (disc_scope p (sort_key fst discs_map)) (final_counter (folder_scope p direct_files) 0)"
    unfolding season_scope_def sc by (simp add: scope_ops_append)
  have discs_root: "scope_ops s is_root (disc_scope p (sort_key fst discs_map)) c =
      scope_ops s False (disc_scope p (sort_key fst discs_map)) c" for c
  proof (cases is_root)
    case True
    then show ?thesis using root_discs by (simp add: disc_scope_def)
  next
    case False
    then show ?thesis by simp
  qed
  show ?thesis
    using plan_files_trace[OF s1] process_discs_trace[OF s2] res sco discs_root by simp
qed




section \<open>Decimal numbers and canonical names\<close>



















section \<open>Season numbers are found anywhere in a folder name\<close>



section \<open>Disc number zero\<close>

lemma scan_season_drop:
  assumes "is_dir d" "get_clean_disc_num (node_name d) season \<in> {None, Some 0}"
  shows "scan_season season items acc = scan_season season (filter (\<lambda>x. x \<noteq> d) items) acc"
proof (induction items arbitrary: acc)
  case Nil
  then show ?case by simp
next
  case (Cons item items)
  obtain discs_map direct_files where acc: "acc = (discs_map, direct_files)"
    by (cases acc)
  show ?case
  proof (cases "item = d")
    case True
    then show ?thesis using assms Cons[of acc] by (auto simp: acc)
  next
    case False
    then show ?thesis using Cons by (simp add: acc split: option.splits)
  qed
qed

lemma scan_season_without:
  assumes "is_dir d" "get_clean_disc_num (node_name d) season \<in> {None, Some 0}"
  shows "scan_season season (sort_key node_name (xs @ d # ys)) acc =
         scan_season season (sort_key node_name (xs @ ys)) acc"
proof -
  have "filter (\<lambda>x. x \<noteq> d) (sort_key node_name (xs @ d # ys)) =
        filter (\<lambda>x. x \<noteq> d) (sort_key node_name (xs @ ys))"
    by (simp add: filter_sort)
  then show ?thesis
    using scan_season_drop[OF assms, of "sort_key node_name (xs @ d # ys)" acc]
      scan_season_drop[OF assms, of "sort_key node_name (xs @ ys)" acc]
    by simp
qed

lemma scan_season_keys:
  "0 \<notin> fst ` set (fst acc) \<Longrightarrow> 0 \<notin> fst ` set (fst (scan_season season items acc))"
proof (induction items arbitrary: acc)
  case Nil
  then show ?case by simp
next
  case (Cons item items)
  obtain discs_map direct_files where acc: "acc = (discs_map, direct_files)"
    by (cases acc)
  have upd: "0 \<notin> fst ` set (AList.update k item discs_map)" if "k \<noteq> 0" for k
    using Cons.prems that by (simp add: acc dom_update[of k item discs_map])
  show ?case
    using Cons.prems Cons.IH[of "(discs_map, direct_files)"]
      Cons.IH[of "(discs_map, direct_files @ [item])"]
      Cons.IH[of "(AList.update k item discs_map, direct_files)" for k] upd
    by (auto simp: acc split: option.splits)
qed

text \<open>
  Claim C10.  A subdirectory of a season folder whose name gives the disc number 0 is
  handled as one whose name gives no disc number: the disc map never has the key 0, and
  the plan of the season is the plan of the same folder without that subdirectory,
  whatever the subdirectory contains.
\<close>

theorem disc_zero_is_no_disc:
  assumes "get_clean_disc_num nm season = Some 0"
  shows "0 \<notin> fst ` set (fst (scan_season season (sort_key node_name (xs @ Dir nm kids # ys)) ([], []))) \<and>
         scan_season season (sort_key node_name (xs @ Dir nm kids # ys)) ([], []) =
           scan_season season (sort_key node_name (xs @ ys)) ([], []) \<and>
         process_season_content self current_path (xs @ Dir nm kids # ys) [] season
             target_season_name False logs =
           process_season_content self current_path (xs @ ys) [] season
             target_season_name False logs"
proof -
  have d: "is_dir (Dir nm kids)"
    "get_clean_disc_num (node_name (Dir nm kids)) season \<in> {None, Some 0}"
    using assms by simp_all
  have 1: "0 \<notin> fst ` set (fst (scan_season season (sort_key node_name (xs @ Dir nm kids # ys)) ([], [])))"
    by (rule scan_season_keys) simp
  have 2: "scan_season season (sort_key node_name (xs @ Dir nm kids # ys)) ([], []) =
           scan_season season (sort_key node_name (xs @ ys)) ([], [])"
    by (rule scan_season_without[OF d])
  have 3: "process_season_content self current_path (xs @ Dir nm kids # ys) [] season
             target_season_name False logs =
           process_season_content self current_path (xs @ ys) [] season
             target_season_name False logs"
    unfolding process_season_content_def using 2 by simp
  show ?thesis using 1 2 3 by blast
qed

theorem disc_zero_is_no_disc_witness:
  "get_clean_disc_num ''Disc 0'' 1 = Some 0 \<and>
   process_season_content init_processor [''/'', ''Show'', ''Season 1'']
       ([File ''a.mkv''] @ Dir ''Disc 0'' [File ''x.mkv''] # [Dir ''Disc 1'' [File ''y.mkv'']]) [] 1
       ''Season 1'' False [] =
     process_season_content init_processor [''/'', ''Show'', ''Season 1'']
       ([File ''a.mkv''] @ [Dir ''Disc 1'' [File ''y.mkv'']]) [] 1 ''Season 1'' False [] \<and>
   operations (snd (process_season_content init_processor [''/'', ''Show'', ''Season 1'']
       ([File ''a.mkv''] @ Dir ''Disc 0'' [File ''x.mkv''] # [Dir ''Disc 1'' [File ''y.mkv'']]) [] 1
       ''Season 1'' False [])) =
     [\<lparr>original = [''/'', ''Show'', ''Season 1'', ''a.mkv''], new_name = ''S01E01.mkv'',
       season_num = 1, is_root_move = False\<rparr>,
      \<lparr>original = [''/'', ''Show'', ''Season 1'', ''Disc 1'', ''y.mkv''], new_name = ''S01E02.mkv'',
       season_num = 1, is_root_move = False\<rparr>]"
proof -
  have h: "get_clean_disc_num ''Disc 0'' 1 = Some 0" by code_simp
  have e: "operations (snd (process_season_content init_processor [''/'', ''Show'', ''Season 1'']
       ([File ''a.mkv''] @ [Dir ''Disc 1'' [File ''y.mkv'']]) [] 1 ''Season 1'' False [])) =
     [\<lparr>original = [''/'', ''Show'', ''Season 1'', ''a.mkv''], new_name = ''S01E01.mkv'',
       season_num = 1, is_root_move = False\<rparr>,
      \<lparr>original = [''/'', ''Show'', ''Season 1'', ''Disc 1'', ''y.mkv''], new_name = ''S01E02.mkv'',
       season_num = 1, is_root_move = False\<rparr>]"
    by code_simp
  show ?thesis
    using disc_zero_is_no_disc[OF h, of "[File ''a.mkv'']" "[File ''x.mkv'']"
        "[Dir ''Disc 1'' [File ''y.mkv'']]" init_processor "[''/'', ''Show'', ''Season 1'']"
        "''Season 1''" "[]"] h e
    by simp
qed

section \<open>Numbering inside a scope\<close>

lemma assign_episode_mono: "c \<le> fst (assign_episode n c)"
  by (simp add: assign_episode_explicit)

lemma assign_episode_le: "snd (assign_episode n c) \<le> fst (assign_episode n c)"
  by (simp add: assign_episode_explicit)

lemma final_counter_mono: "c \<le> final_counter scope c"
proof (induction scope c rule: final_counter.induct)
  case (1 c)
  then show ?case by simp
next
  case (2 folder n rest c)
  then show ?case
    using assign_episode_mono[of c n] by (auto intro: order_trans)
qed

lemma assignments_bounds:
  "(f, e) \<in> set (assignments scope c) \<Longrightarrow>
   e \<le> final_counter scope c \<and> (\<not> explicit_episode (snd f) \<longrightarrow> c < e) \<and>
   (explicit_episode (snd f) \<longrightarrow> get_episode_from_file (snd f) = Some e)"
proof (induction scope c rule: assignments.induct)
  case (1 c)
  then show ?case by simp
next
  case (2 folder n rest c)
  show ?case
  proof (cases "should_ignore_file n")
    case True
    then show ?thesis using 2 by simp
  next
    case False
    obtain c1 e1 where ae: "assign_episode n c = (c1, e1)"
      by (cases "assign_episode n c")
    have c1: "c \<le> c1" "e1 \<le> c1"
      using assign_episode_mono[of c n] assign_episode_le[of n c] ae by simp_all
    from "2.prems" False ae consider "(f, e) = ((folder, n), e1)" | "(f, e) \<in> set (assignments rest c1)"
      by auto
    then show ?thesis
    proof cases
      case 1
      then show ?thesis
        using False ae c1 final_counter_mono[of c1 rest]
        by (auto simp: assign_episode_explicit explicit_episode_def split: if_splits option.splits)
    next
      case 2
      then show ?thesis
        using "2.IH"(2)[OF False ae[symmetric] 2] False ae c1 final_counter_mono[of c1 rest]
        by auto
    qed
  qed
qed

lemma assignments_sorted:
  "sorted_wrt (\<lambda>a b. \<not> explicit_episode (snd (fst b)) \<longrightarrow> snd a < snd b) (assignments scope c)"
proof (induction scope c rule: assignments.induct)
  case (1 c)
  then show ?case by simp
next
  case (2 folder n rest c)
  show ?case
  proof (cases "should_ignore_file n")
    case True
    then show ?thesis using 2 by simp
  next
    case False
    obtain c1 e1 where ae: "assign_episode n c = (c1, e1)"
      by (cases "assign_episode n c")
    have c1: "e1 \<le> c1"
      using assign_episode_le[of n c] ae by simp
    have "\<not> explicit_episode (snd (fst b)) \<longrightarrow> e1 < snd b" if "b \<in> set (assignments rest c1)" for b
      using assignments_bounds[of "fst b" "snd b" rest c1] that c1 by auto
    then show ?thesis
      using "2.IH"(2)[OF False ae[symmetric]] False ae by auto
  qed
qed

text \<open>
  Claim C4, as the code has it.  The numbers given in a season scope are those of
  \<^const>\<open>assignments\<close> on the files of the season, started at 0.  The counter never decreases
  and bounds every number given so far; a file with an explicit number keeps that number;
  and every number given earlier in the scope, explicit or not, lies strictly below every
  number given later to a file without an explicit number.  So explicit numbers are floors
  for the later automatic numbers and the automatic numbers increase strictly, while an
  explicit number may be smaller than the numbers before it.
\<close>

theorem season_numbering_floor:
  "(process_season_content self p listing rf s tn is_root logs = (logs', self') \<longrightarrow>
      operations self' = operations self @
        concat (map (op_of s is_root) (assignments (season_scope s p listing rf is_root) 0))) \<and>
   c \<le> final_counter scope c \<and>
   (\<forall>a \<in> set (assignments scope c).
      snd a \<le> final_counter scope c \<and>
      (explicit_episode (snd (fst a)) \<longrightarrow> get_episode_from_file (snd (fst a)) = Some (snd a)) \<and>
      (\<not> explicit_episode (snd (fst a)) \<longrightarrow> c < snd a)) \<and>
   sorted_wrt (\<lambda>a b. \<not> explicit_episode (snd (fst b)) \<longrightarrow> snd a < snd b) (assignments scope c)"
proof -
  have 1: "process_season_content self p listing rf s tn is_root logs = (logs', self') \<longrightarrow>
      operations self' = operations self @
        concat (map (op_of s is_root) (assignments (season_scope s p listing rf is_root) 0))"
    using process_season_content_trace[of self p listing rf s tn is_root logs logs' self']
    by (simp add: scope_ops_def)
  have 2: "\<forall>a \<in> set (assignments scope c).
      snd a \<le> final_counter scope c \<and>
      (explicit_episode (snd (fst a)) \<longrightarrow> get_episode_from_file (snd (fst a)) = Some (snd a)) \<and>
      (\<not> explicit_episode (snd (fst a)) \<longrightarrow> c < snd a)"
  proof
    fix a assume "a \<in> set (assignments scope c)"
    then show "snd a \<le> final_counter scope c \<and>
      (explicit_episode (snd (fst a)) \<longrightarrow> get_episode_from_file (snd (fst a)) = Some (snd a)) \<and>
      (\<not> explicit_episode (snd (fst a)) \<longrightarrow> c < snd a)"
      using assignments_bounds[of "fst a" "snd a" scope c] by simp
  qed
  show ?thesis
    using 1 2 final_counter_mono[of c scope] assignments_sorted[of scope c] by blast
qed

theorem season_numbering_floor_witness:
  "process_season_content init_processor [''/'', ''Show'', ''Season 1'']
     [File ''a.mkv'', File ''b S01E05.mkv'', File ''c.mkv''] [] 1 ''Season 1'' False [] =
     (fst (process_season_content init_processor [''/'', ''Show'', ''Season 1'']
        [File ''a.mkv'', File ''b S01E05.mkv'', File ''c.mkv''] [] 1 ''Season 1'' False []),
      snd (process_season_content init_processor [''/'', ''Show'', ''Season 1'']
        [File ''a.mkv'', File ''b S01E05.mkv'', File ''c.mkv''] [] 1 ''Season 1'' False [])) \<and>
   map new_name (operations (snd (process_season_content init_processor [''/'', ''Show'', ''Season 1'']
     [File ''a.mkv'', File ''b S01E05.mkv'', File ''c.mkv''] [] 1 ''Season 1'' False []))) =
     [''S01E01.mkv'', ''S01E05.mkv'', ''S01E06.mkv''] \<and>
   map snd (assignments (season_scope 1 [''/'', ''Show'', ''Season 1'']
     [File ''a.mkv'', File ''b S01E05.mkv'', File ''c.mkv''] [] False) 0) = [1, 5, 6] \<and>
   final_counter (season_scope 1 [''/'', ''Show'', ''Season 1'']
     [File ''a.mkv'', File ''b S01E05.mkv'', File ''c.mkv''] [] False) 0 = 6 \<and>
   sorted_wrt (\<lambda>a b. \<not> explicit_episode (snd (fst b)) \<longrightarrow> snd a < snd b)
     (assignments (season_scope 1 [''/'', ''Show'', ''Season 1'']
        [File ''a.mkv'', File ''b S01E05.mkv'', File ''c.mkv''] [] False) 0)"
proof -
  let ?r = "process_season_content init_processor [''/'', ''Show'', ''Season 1'']
     [File ''a.mkv'', File ''b S01E05.mkv'', File ''c.mkv''] [] 1 ''Season 1'' False []"
  let ?sc = "season_scope 1 [''/'', ''Show'', ''Season 1'']
     [File ''a.mkv'', File ''b S01E05.mkv'', File ''c.mkv''] [] False"
  have h: "?r = (fst ?r, snd ?r)" by simp
  have e1: "map snd (assignments ?sc 0) = [1, 5, 6]" by code_simp
  have e2: "final_counter ?sc 0 = 6" by code_simp
  have e3: "map new_name (concat (map (op_of 1 False) (assignments ?sc 0))) =
     [''S01E01.mkv'', ''S01E05.mkv'', ''S01E06.mkv'']" by code_simp
  have e4: "operations init_processor = []" by (simp add: init_processor_def)
  note t = season_numbering_floor[of init_processor "[''/'', ''Show'', ''Season 1'']"
     "[File ''a.mkv'', File ''b S01E05.mkv'', File ''c.mkv'']" "[]" 1 "''Season 1''" False "[]"
     "fst ?r" "snd ?r" 0 ?sc]
  from t h have ops: "operations (snd ?r) = operations init_processor @
        concat (map (op_of 1 False) (assignments ?sc 0))"
    by blast
  from t have srt: "sorted_wrt (\<lambda>a b. \<not> explicit_episode (snd (fst b)) \<longrightarrow> snd a < snd b)
     (assignments ?sc 0)"
    by blast
  show ?thesis
    using h e1 e2 srt by (simp only: ops e3 e4 append_Nil simp_thms)
qed

text \<open>
  Claim C4 as stated fails: in a season folder with the files \<^verbatim>\<open>a.mkv\<close>,
  \<^verbatim>\<open>b.mkv\<close> and \<^verbatim>\<open>c S01E01.mkv\<close> the numbers given are 1, 2, 1, which is not
  a non-decreasing sequence.
\<close>

theorem assigned_numbers_can_decrease:
  "map snd (assignments (season_scope 1 [''/'', ''Show'', ''Season 1'']
     [File ''a.mkv'', File ''b.mkv'', File ''c S01E01.mkv''] [] False) 0) = [1, 2, 1] \<and>
   map new_name (operations (snd (process_season_content init_processor [''/'', ''Show'', ''Season 1'']
     [File ''a.mkv'', File ''b.mkv'', File ''c S01E01.mkv''] [] 1 ''Season 1'' False []))) =
     [''S01E01.mkv'', ''S01E02.mkv'', ''S01E01.mkv''] \<and>
   \<not> sorted [1, 2, 1 :: nat]"
proof -
  have 1: "map snd (assignments (season_scope 1 [''/'', ''Show'', ''Season 1'']
     [File ''a.mkv'', File ''b.mkv'', File ''c S01E01.mkv''] [] False) 0) = [1, 2, 1]"
    by code_simp
  have 2: "map new_name (operations (snd (process_season_content init_processor [''/'', ''Show'', ''Season 1'']
     [File ''a.mkv'', File ''b.mkv'', File ''c S01E01.mkv''] [] 1 ''Season 1'' False []))) =
     [''S01E01.mkv'', ''S01E02.mkv'', ''S01E01.mkv'']"
    by code_simp
  have 3: "\<not> sorted [1, 2, 1 :: nat]" by simp
  show ?thesis using 1 2 3 by blast
qed

section \<open>One counter for the direct files and the discs of a season\<close>







section \<open>Where the code departs from its own description\<close>

text \<open>
  Claim C3 at an explicit episode number 0.  The name \<^verbatim>\<open>Show S01E00.mkv\<close> yields the
  explicit number 0, but the test \<^verbatim>\<open>if explicit_ep:\<close> takes 0 for no number: with
  the counter at 3 the file gets the number 4 and the counter becomes 4, where the claim
  has the number 0 and the counter 3.
\<close>

theorem explicit_episode_zero_renumbered:
  "get_episode_from_file ''Show S01E00.mkv'' = Some 0 \<and>
   assign_episode ''Show S01E00.mkv'' 3 = (4, 4) \<and>
   plan_file_rename init_processor [''/'', ''Show'', ''Season 1'', ''Show S01E00.mkv''] 1 3 2 [] False =
     (4, [LogArrow 2 ''Show S01E00.mkv'' ''S01E04.mkv''],
      \<lparr>operations = [\<lparr>original = [''/'', ''Show'', ''Season 1'', ''Show S01E00.mkv''],
                       new_name = ''S01E04.mkv'', season_num = 1, is_root_move = False\<rparr>],
       tree_output = []\<rparr>)"
  by code_simp

text \<open>
  Claim C5 with an ignored file at the root.  The test of \<^verbatim>\<open>process_show\<close> asks that
  no root video file is ignored: beside \<^verbatim>\<open>b [IGNORE].mkv\<close> the file
  \<^verbatim>\<open>a.mkv\<close> is not planned and no season 1 is made, while alone it is moved to
  season 1.
\<close>

theorem ignored_root_file_blocks_season_one:
  "operations (process_show init_processor [''/'', ''Show'']
                 [File ''a.mkv'', File ''b [IGNORE].mkv'']) = [] \<and>
   operations (process_show init_processor [''/'', ''Show''] [File ''a.mkv'']) =
     [\<lparr>original = [''/'', ''Show'', ''a.mkv''], new_name = ''S01E01.mkv'', season_num = 1,
       is_root_move = True\<rparr>]"
  by code_simp

text \<open>
  Claim C2 in the two dialects.  The line of the shell script is \<^verbatim>\<open>mv -n\<close>, which
  leaves an existing destination alone; the line of the batch script is a plain
  \<^verbatim>\<open>move\<close> with no switch, and nothing else is written for the operation.
\<close>

theorem windows_move_has_no_guard:
  "generate_script
     \<lparr>operations = [\<lparr>original = [''C:'', ''Show'', ''Season 1'', ''a.mkv''],
                      new_name = ''S01E01.mkv'', season_num = 1, is_root_move = False\<rparr>],
      tree_output = []\<rparr> True =
     Some (''apply_renames.bat'',
           [''REM Generated by Jellyfin Organizer'',
            ''move '' @ quoted (path_str True [''C:'', ''Show'', ''Season 1'', ''a.mkv'']) @ '' '' @
              quoted (path_str True [''C:'', ''Show'', ''Season 1'', ''S01E01.mkv''])]) \<and>
   generate_script
     \<lparr>operations = [\<lparr>original = [''/'', ''Show'', ''Season 1'', ''a.mkv''],
                      new_name = ''S01E01.mkv'', season_num = 1, is_root_move = False\<rparr>],
      tree_output = []\<rparr> False =
     Some (''apply_renames.sh'',
           [''#!/bin/bash'', ''# Generated by Jellyfin Organizer'',
            ''mv -n '' @ quoted ''/Show/Season 1/a.mkv'' @ '' '' @
              quoted ''/Show/Season 1/S01E01.mkv''])"
  by code_simp

text \<open>
  Claim C7 on a season folder named \<^verbatim>\<open>Staffel 1\<close>.  The report shows the folder with
  an arrow to \<^verbatim>\<open>Season 1\<close>, but the script holds the move of the file only, inside
  the folder under its old name; no line renames the folder.
\<close>

theorem folder_rename_logged_not_emitted:
  "detect_mode_and_run False [''/'', ''Show'']
     (Some (Dir ''Show'' [Dir ''Staffel 1'' [File ''a.mkv'']])) =
   Completed
     \<lparr>operations = [\<lparr>original = [''/'', ''Show'', ''Staffel 1'', ''a.mkv''],
                      new_name = ''S01E01.mkv'', season_num = 1, is_root_move = False\<rparr>],
      tree_output = [LogShow ''Show'', LogArrow 1 ''Staffel 1'' ''Season 1'',
                     LogArrow 2 ''a.mkv'' ''S01E01.mkv'']\<rparr>
     (Some (''apply_renames.sh'',
            [''#!/bin/bash'', ''# Generated by Jellyfin Organizer'',
             ''mv -n '' @ quoted ''/Show/Staffel 1/a.mkv'' @ '' '' @
               quoted ''/Show/Staffel 1/S01E01.mkv'']))"
  by code_simp

section \<open>Destinations of the operations of a run\<close>




















lemma destination_of_original:
  "destination \<lparr>original = folder @ [n], new_name = nn, season_num = s, is_root_move = r\<rparr> =
     (if r then folder @ [''Season '' @ str_nat s, nn] else folder @ [nn])"
  by (simp add: destination_def path_parent_def)













section \<open>Settled scopes plan nothing\<close>

lemma script_lines_render: "script_lines w op = map (render w) (commands_of op)"
  by (simp add: script_lines_def commands_of_def render_def destination_def Let_def)




section \<open>A second run plans nothing\<close>

subsection \<open>Listings and the commands of the script\<close>

lemma renode_name [simp]: "node_name (renode ops q x) = node_name x"
  by (cases x) auto

lemma renode_is_dir [simp]: "is_dir (renode ops q x) = is_dir x"
  by (cases x) auto

lemma renode_is_file [simp]: "is_file (renode ops q x) = is_file x"
  by (cases x) auto


























subsection \<open>One operation of the script\<close>







subsection \<open>The script on a tree\<close>







subsection \<open>Season and disc maps\<close>









subsection \<open>Numbers and names of a scope\<close>












lemma rfind_append_none:
  "c \<notin> set pre \<Longrightarrow> rfind c (pre @ xs) = (case rfind c xs of Some i \<Rightarrow> Some (length pre + i) | None \<Rightarrow> None)"
  by (induction pre) (auto split: option.splits)





subsection \<open>The scopes of a season in the new tree\<close>







lemma moved_files_are_files: "f \<in> set (moved_files ops q) \<Longrightarrow> is_file f \<and> \<not> is_dir f"
  by (auto simp: moved_files_def)



lemma disc_of_renode [simp]: "disc_of s (renode ops q x) = disc_of s x"
  by (simp add: disc_of_def)




subsection \<open>The operations of a show\<close>





lemma filter_season_dirs:
  "filter (\<lambda>d. season_of d = Some k) (filter is_dir (sort_key node_name listing)) =
   sort_key node_name (filter (\<lambda>d. is_dir d \<and> season_of d = Some k) listing)"
  by (simp add: filter_sort conj_commute)




lemma root_scope [simp]:
  "season_scope s p [] rf True = folder_scope p (sort_key node_name rf)"
  by (simp add: season_scope_def disc_scope_def)








subsection \<open>The seasons of a show in the new tree\<close>



lemma season_of_renode [simp]: "season_of (renode ops q x) = season_of x"
  by (simp add: season_of_def)











subsection \<open>The new tree of a show is settled\<close>




subsection \<open>The sources of the operations are distinct\<close>












subsection \<open>The operations of a run\<close>


















subsection \<open>The second run\<close>












end
